theory Spec2Isabelle
  imports Main "HOL-Library.Sublist" "HOL-Library.Multiset"
begin

section \<open>nsight: composite service signatures over nmap output\<close>

text \<open>
  A shallow embedding of \<^verbatim>\<open>src/main.go\<close>. Go's \<^verbatim>\<open>map[int]struct{}\<close> is a set of
  integers (\<^verbatim>\<open>_, ok := set[p]\<close> is membership, \<^verbatim>\<open>set[p] = struct{}{}\<close> is insertion),
  a slice \<^verbatim>\<open>[]int\<close> is a list, a \<^verbatim>\<open>string\<close> is a list of bytes. Ports are modelled as
  unbounded integers; the one place where the 64-bit width of Go's \<^verbatim>\<open>int\<close> is observable
  (\<^verbatim>\<open>strconv.Atoi\<close>) has the saturation written out.
\<close>

subsection \<open>Data model\<close>

record Signature =
  Name :: string
  Required :: "int list"
  Optional :: "int list"

type_synonym PortSet = "int set"

subsection \<open>Matcher helpers\<close>

text \<open>\<^verbatim>\<open>hasAll\<close>: the loop returns false at the first port that is not in the set.\<close>

fun hasAll :: "PortSet \<Rightarrow> int list \<Rightarrow> bool" where
  "hasAll pset [] = True"
| "hasAll pset (p # req) = (if p \<notin> pset then False else hasAll pset req)"

text \<open>\<^verbatim>\<open>presentOptional\<close>: the loop appends each optional port found in the set to
  \<^verbatim>\<open>present\<close>, which starts as the nil slice.\<close>

fun presentOptional_loop :: "PortSet \<Rightarrow> int list \<Rightarrow> int list \<Rightarrow> int list" where
  "presentOptional_loop pset [] present = present"
| "presentOptional_loop pset (p # opt) present =
     (if p \<in> pset then presentOptional_loop pset opt (present @ [p])
      else presentOptional_loop pset opt present)"

definition presentOptional :: "PortSet \<Rightarrow> int list \<Rightarrow> int list" where
  "presentOptional pset opt = presentOptional_loop pset opt []"

text \<open>\<^verbatim>\<open>diff\<close>: the first loop builds the set \<^verbatim>\<open>m\<close> of the ports of \<^verbatim>\<open>subset\<close>, the
  second appends to \<^verbatim>\<open>out\<close> each port of \<^verbatim>\<open>all\<close> that is not in \<^verbatim>\<open>m\<close>.\<close>

fun diff_build :: "int list \<Rightarrow> PortSet \<Rightarrow> PortSet" where
  "diff_build [] m = m"
| "diff_build (p # sub) m = diff_build sub (insert p m)"

fun diff_collect :: "PortSet \<Rightarrow> int list \<Rightarrow> int list \<Rightarrow> int list" where
  "diff_collect m [] out = out"
| "diff_collect m (p # all) out =
     (if p \<notin> m then diff_collect m all (out @ [p]) else diff_collect m all out)"

definition diff :: "int list \<Rightarrow> int list \<Rightarrow> int list" where
  "diff all sub = diff_collect (diff_build sub {}) all []"

subsection \<open>Styled output\<close>

text \<open>The ANSI style fragments; \<^verbatim>\<open>\033\<close> is the escape byte \<open>0x1B\<close>.\<close>

definition bold :: string where "bold = CHR 0x1B # ''[1m''"
definition green :: string where "green = CHR 0x1B # ''[32m''"
definition yellow :: string where "yellow = CHR 0x1B # ''[33m''"
definition cyan :: string where "cyan = CHR 0x1B # ''[36m''"
definition faint :: string where "faint = CHR 0x1B # ''[2m''"
definition reset :: string where "reset = CHR 0x1B # ''[0m''"

definition NL :: string where "NL = [CHR 0x0A]"

text \<open>\<^verbatim>\<open>style\<close>: the global \<^verbatim>\<open>noColor\<close> is the first argument; \<^verbatim>\<open>sb\<close> is the string
  builder.\<close>

definition style :: "bool \<Rightarrow> string \<Rightarrow> string \<Rightarrow> bool \<Rightarrow> bool \<Rightarrow> string" where
  "style noColor text colour boldOn faintOn =
     (if noColor then text
      else (let sb = [];
                sb = (if faintOn then sb @ faint
                      else (let sb = (if boldOn then sb @ bold else sb)
                            in (if colour \<noteq> [] then sb @ colour else sb)));
                sb = sb @ text;
                sb = sb @ reset
            in sb))"

text \<open>\<^verbatim>\<open>strconv.Itoa\<close>: the decimal digits of an integer, with a minus sign when it is
  negative.\<close>

fun digits10 :: "nat \<Rightarrow> string" where
  "digits10 n = (if n < 10 then [''0123456789'' ! n]
                 else digits10 (n div 10) @ [''0123456789'' ! (n mod 10)])"

definition Itoa :: "int \<Rightarrow> string" where
  "Itoa i = (if i < 0 then CHR ''-'' # digits10 (nat (- i)) else digits10 (nat i))"

text \<open>\<^verbatim>\<open>strings.Join\<close>.\<close>

fun Join :: "string list \<Rightarrow> string \<Rightarrow> string" where
  "Join [] sep = []"
| "Join [a] sep = a"
| "Join (a # b # rest) sep = a @ sep @ Join (b # rest) sep"

text \<open>\<^verbatim>\<open>joinPorts\<close>: \<^verbatim>\<open>sort.Ints(ports)\<close> sorts the caller's slice in place, so the
  model returns the sorted slice next to the text; callers that go on using the slice
  use the returned one.\<close>

definition joinPorts ::
  "bool \<Rightarrow> int list \<Rightarrow> string \<Rightarrow> bool \<Rightarrow> bool \<Rightarrow> string \<times> int list" where
  "joinPorts noColor ports colour boldOn faintOn =
     (let ports = sort ports;
          parts = map (\<lambda>p. style noColor (Itoa p) colour boldOn faintOn) ports
      in (Join parts '', '', ports))"

subsection \<open>The catalog\<close>

text \<open>\<^verbatim>\<open>knownSignatures\<close>: a field left out of a composite literal is the nil slice.\<close>

definition knownSignatures :: "Signature list" where
  "knownSignatures =
   [\<lparr>Name = ''SMB / NetBIOS file share'', Required = [139, 445], Optional = []\<rparr>,
    \<lparr>Name = ''Active Directory Domain Controller'', Required = [53, 88, 389, 445, 464],
      Optional = [636, 3268, 3269, 5985, 9389]\<rparr>,
    \<lparr>Name = ''Windows RPC services (EPM + dynamic RPC)'', Required = [135], Optional = []\<rparr>,
    \<lparr>Name = ''Windows Remote Management / WinRM'', Required = [5985], Optional = [5986]\<rparr>,
    \<lparr>Name = ''NFS server (rpcbind + nfsd)'', Required = [111, 2049],
      Optional = [20048, 4045, 4049]\<rparr>,
    \<lparr>Name = ''FTP'', Required = [21], Optional = [20]\<rparr>,
    \<lparr>Name = ''Mail stack (SMTP + POP)'', Required = [25, 110], Optional = []\<rparr>,
    \<lparr>Name = ''Mail stack (SMTP + IMAP)'', Required = [25, 143], Optional = []\<rparr>,
    \<lparr>Name = ''Mail stack (SMTP + IMAPS)'', Required = [25, 993], Optional = []\<rparr>,
    \<lparr>Name = ''SIP / VoIP server'', Required = [5060], Optional = []\<rparr>,
    \<lparr>Name = ''Network printer (JetDirect + LPD)'', Required = [515, 9100], Optional = []\<rparr>,
    \<lparr>Name = ''Oracle Database'', Required = [1521], Optional = [1522, 2483, 2484]\<rparr>,
    \<lparr>Name = ''MySQL / MariaDB'', Required = [3306], Optional = [33060]\<rparr>,
    \<lparr>Name = ''Microsoft SQL Server'', Required = [1433], Optional = []\<rparr>,
    \<lparr>Name = ''PostgreSQL'', Required = [5432], Optional = [5433]\<rparr>,
    \<lparr>Name = ''IBM Db2 Database'', Required = [50000], Optional = [50001, 50050]\<rparr>,
    \<lparr>Name = ''SAP NetWeaver Application Server'', Required = [3200, 3300],
      Optional = [3600, 8000, 8001, 3299]\<rparr>,
    \<lparr>Name = ''Elasticsearch'', Required = [9200], Optional = [9300]\<rparr>,
    \<lparr>Name = ''Splunk Enterprise'', Required = [8000, 8089, 9997], Optional = [8088]\<rparr>,
    \<lparr>Name = ''VMware vCenter Server'', Required = [443], Optional = [5480, 902]\<rparr>,
    \<lparr>Name = ''MongoDB Database'', Required = [27017], Optional = [27018, 27019]\<rparr>,
    \<lparr>Name = ''Redis'', Required = [6379], Optional = [26379, 16379]\<rparr>,
    \<lparr>Name = ''Apache Cassandra'', Required = [9042], Optional = [7000, 9160]\<rparr>]"

text \<open>The catalog of the other copy of \<^verbatim>\<open>main.go\<close> in the repository, an earlier
  version of the program with the same helper functions.\<close>

definition knownSignatures_alt :: "Signature list" where
  "knownSignatures_alt =
   [\<lparr>Name = ''SMB / NetBIOS file share'', Required = [139, 445], Optional = []\<rparr>,
    \<lparr>Name = ''Active Directory Domain Controller'', Required = [53, 88, 389, 445, 464],
      Optional = [636, 3268, 3269, 5985, 9389]\<rparr>,
    \<lparr>Name = ''Windows RPC services (EPM + dynamic RPC)'', Required = [135], Optional = []\<rparr>,
    \<lparr>Name = ''NFS server (rpcbind + nfsd)'', Required = [111, 2049],
      Optional = [20048, 4045, 4049]\<rparr>,
    \<lparr>Name = ''FTP (control + data)'', Required = [20, 21], Optional = []\<rparr>,
    \<lparr>Name = ''Mail stack (SMTP + POP)'', Required = [25, 110], Optional = []\<rparr>,
    \<lparr>Name = ''Mail stack (SMTP + IMAP)'', Required = [25, 143], Optional = []\<rparr>,
    \<lparr>Name = ''Mail stack (SMTP + IMAPS)'', Required = [25, 993], Optional = []\<rparr>,
    \<lparr>Name = ''SIP / VoIP server'', Required = [5060], Optional = []\<rparr>,
    \<lparr>Name = ''Network printer (JetDirect + LPD)'', Required = [515, 9100], Optional = []\<rparr>]"

subsection \<open>The report (\<^verbatim>\<open>main\<close>, from the empty-set check on)\<close>

text \<open>The header mark is U+25B6, three bytes in UTF-8.\<close>

definition mark :: string where "mark = [CHR 0xE2, CHR 0x96, CHR 0xB6]"

text \<open>
  The body of \<^verbatim>\<open>if hasAll(openPorts, sig.Required)\<close>: the text it prints, and the
  signature as the body leaves it. \<^verbatim>\<open>sig\<close> is a copy of the catalog entry whose slices
  share the entry's arrays, so the in-place sort of \<^verbatim>\<open>sig.Required\<close> inside \<^verbatim>\<open>joinPorts\<close>
  is a change of the entry. \<^verbatim>\<open>present\<close> is sorted in place by the second \<^verbatim>\<open>joinPorts\<close>
  call (when that call is made) before \<^verbatim>\<open>diff\<close> reads it.
\<close>

definition sig_block :: "bool \<Rightarrow> PortSet \<Rightarrow> Signature \<Rightarrow> string \<times> Signature" where
  "sig_block noColor openPorts sig =
     (let header = style noColor mark green True False;
          service = style noColor (''Possible '' @ Name sig @ '' detected'') cyan True False;
          out = header @ '' '' @ service @ '': '';
          (txt, req) = joinPorts noColor (Required sig) green True False;
          sig = sig\<lparr>Required := req\<rparr>;
          out = out @ ''Required ports '' @ txt @ '' are present'';
          out =
            (if length (Optional sig) > 0 then
               (let present = presentOptional openPorts (Optional sig);
                    (out, present) =
                      (if length present > 0 then
                         (let (txt, present) = joinPorts noColor present yellow True False
                          in (out @ '', optional ports '' @ txt @ '' are also present'', present))
                       else (out, present));
                    missing = diff (Optional sig) present;
                    out =
                      (if length missing > 0 then
                         out @ '', optional ports ''
                             @ fst (joinPorts noColor missing [] False True) @ '' are missing''
                       else out)
                in out)
             else out)
      in (out @ NL, sig))"

text \<open>
  The loop over the catalog, with the state \<^verbatim>\<open>any\<close>, the text printed so far and the
  catalog entries already visited (as the loop leaves them).
\<close>

fun report_loop ::
  "bool \<Rightarrow> PortSet \<Rightarrow> Signature list \<Rightarrow> bool \<times> string \<times> Signature list
     \<Rightarrow> bool \<times> string \<times> Signature list" where
  "report_loop noColor openPorts [] st = st"
| "report_loop noColor openPorts (sig # sigs) (any, out, visited) =
     (if hasAll openPorts (Required sig) then
        (let (txt, sig') = sig_block noColor openPorts sig
         in report_loop noColor openPorts sigs (True, out @ txt, visited @ [sig']))
      else report_loop noColor openPorts sigs (any, out, visited @ [sig]))"

text \<open>
  \<^verbatim>\<open>main\<close> from \<^verbatim>\<open>if len(openPorts) == 0\<close> to its end, with the catalog that the loop
  ranges over as an argument: the text written to standard output and the catalog as the
  run leaves it.
\<close>

definition report :: "bool \<Rightarrow> Signature list \<Rightarrow> PortSet \<Rightarrow> string \<times> Signature list" where
  "report noColor sigs openPorts =
     (if openPorts = {} then
        (style noColor ''No open ports found.'' yellow False False @ NL, sigs)
      else
        (let (any, out, sigs') = report_loop noColor openPorts sigs (False, [], []);
             out = (if \<not> any then
                      out @ style noColor ''No composite service signatures recognised.''
                              yellow False False @ NL
                    else out)
         in (out @ NL, sigs')))"

definition main_report :: "bool \<Rightarrow> PortSet \<Rightarrow> string" where
  "main_report noColor openPorts = fst (report noColor knownSignatures openPorts)"

subsection \<open>Reading the scan report (\<^verbatim>\<open>parseNmap\<close>)\<close>

text \<open>
  The library functions that \<^verbatim>\<open>parseNmap\<close> calls are part of its behaviour, so each is
  modelled after the Go standard library: \<^verbatim>\<open>bufio.Scanner\<close> with its default line
  splitting and token limit, \<^verbatim>\<open>strings.TrimSpace\<close>, the regular expression
  \<^verbatim>\<open>^(\d+)/tcp\s+open\<close> and \<^verbatim>\<open>strconv.Atoi\<close>. A file is its sequence of bytes; errors
  of the operating system while reading an opened file are not modelled.
\<close>

datatype error = ErrOpen | ErrTooLong

text \<open>\<^verbatim>\<open>bufio.MaxScanTokenSize\<close>: a line that does not fit a buffer of this many bytes
  (its line feed included) stops the scanner with \<^verbatim>\<open>bufio.ErrTooLong\<close>.\<close>

definition MaxScanTokenSize :: int where "MaxScanTokenSize = 64 * 1024"

definition dropCR :: "string \<Rightarrow> string" where
  "dropCR data = (if data \<noteq> [] \<and> last data = CHR 0x0D then butlast data else data)"

text \<open>
  The tokens that successive calls of \<^verbatim>\<open>s.Scan()\<close> deliver (\<^verbatim>\<open>bufio.ScanLines\<close>: split
  at line feeds, one trailing carriage return dropped, a last line without line feed
  delivered too), and the value of \<^verbatim>\<open>s.Err()\<close> once \<^verbatim>\<open>Scan\<close> has returned false.
\<close>

function scan_lines :: "string \<Rightarrow> string list \<times> error option" where
  "scan_lines data =
     (if data = [] then ([], None)
      else (let line = takeWhile (\<lambda>c. c \<noteq> CHR 0x0A) data in
            if int (length line) \<ge> MaxScanTokenSize then ([], Some ErrTooLong)
            else (let (toks, err) = scan_lines (drop (length line + 1) data)
                  in (dropCR line # toks, err))))"
  by pat_completeness auto
termination
  by (relation "measure length") auto

declare scan_lines.simps [simp del]

text \<open>
  \<^verbatim>\<open>strings.TrimSpace\<close> removes leading and trailing runes with the Unicode property
  White_Space. On bytes: the six ASCII ones, and the UTF-8 encodings of U+0085, U+00A0,
  U+1680, U+2000 to U+200A, U+2028, U+2029, U+202F, U+205F and U+3000. A byte sequence
  that is not valid UTF-8 decodes to U+FFFD, which is not white space.
\<close>

definition space_runes :: "string list" where
  "space_runes =
     [[CHR 0x09], [CHR 0x0A], [CHR 0x0B], [CHR 0x0C], [CHR 0x0D], [CHR 0x20],
      [CHR 0xC2, CHR 0x85], [CHR 0xC2, CHR 0xA0], [CHR 0xE1, CHR 0x9A, CHR 0x80],
      [CHR 0xE2, CHR 0x80, CHR 0x80], [CHR 0xE2, CHR 0x80, CHR 0x81],
      [CHR 0xE2, CHR 0x80, CHR 0x82], [CHR 0xE2, CHR 0x80, CHR 0x83],
      [CHR 0xE2, CHR 0x80, CHR 0x84], [CHR 0xE2, CHR 0x80, CHR 0x85],
      [CHR 0xE2, CHR 0x80, CHR 0x86], [CHR 0xE2, CHR 0x80, CHR 0x87],
      [CHR 0xE2, CHR 0x80, CHR 0x88], [CHR 0xE2, CHR 0x80, CHR 0x89],
      [CHR 0xE2, CHR 0x80, CHR 0x8A], [CHR 0xE2, CHR 0x80, CHR 0xA8],
      [CHR 0xE2, CHR 0x80, CHR 0xA9], [CHR 0xE2, CHR 0x80, CHR 0xAF],
      [CHR 0xE2, CHR 0x81, CHR 0x9F], [CHR 0xE3, CHR 0x80, CHR 0x80]]"

text \<open>The width in bytes of the white-space rune a string starts (ends) with, 0 when
  it starts (ends) with none.\<close>

definition leading_space :: "string \<Rightarrow> nat" where
  "leading_space s =
     (case filter (\<lambda>r. prefix r s) space_runes of [] \<Rightarrow> 0 | r # _ \<Rightarrow> length r)"

definition trailing_space :: "string \<Rightarrow> nat" where
  "trailing_space s =
     (case filter (\<lambda>r. suffix r s) space_runes of [] \<Rightarrow> 0 | r # _ \<Rightarrow> length r)"

function TrimLeft :: "string \<Rightarrow> string" where
  "TrimLeft s = (if leading_space s = 0 then s else TrimLeft (drop (leading_space s) s))"
  by pat_completeness auto
termination
proof (relation "measure length")
  show "wf (measure length)" by simp
next
  fix s :: string
  assume a: "leading_space s \<noteq> 0"
  then have "s \<noteq> []" by (auto simp: leading_space_def space_runes_def)
  with a show "(drop (leading_space s) s, s) \<in> measure length" by (cases s) auto
qed

function TrimRight :: "string \<Rightarrow> string" where
  "TrimRight s = (if trailing_space s = 0 then s
                  else TrimRight (take (length s - trailing_space s) s))"
  by pat_completeness auto
termination
proof (relation "measure length")
  show "wf (measure length)" by simp
next
  fix s :: string
  assume a: "trailing_space s \<noteq> 0"
  then have "s \<noteq> []" by (auto simp: trailing_space_def space_runes_def)
  with a show "(take (length s - trailing_space s) s, s) \<in> measure length" by (cases s) auto
qed

declare TrimLeft.simps [simp del] TrimRight.simps [simp del]

definition TrimSpace :: "string \<Rightarrow> string" where
  "TrimSpace s = TrimRight (TrimLeft s)"

text \<open>The classes of the regular expression: \<^verbatim>\<open>\d\<close> is an ASCII digit, \<^verbatim>\<open>\s\<close> is one
  of tab, line feed, form feed, carriage return and space.\<close>

definition is_digit :: "char \<Rightarrow> bool" where
  "is_digit c = (48 \<le> (of_char c :: nat) \<and> (of_char c :: nat) \<le> 57)"

definition digit_val :: "char \<Rightarrow> int" where
  "digit_val c = int (of_char c) - 48"

definition is_re_space :: "char \<Rightarrow> bool" where
  "is_re_space c = (c \<in> {CHR 0x09, CHR 0x0A, CHR 0x0C, CHR 0x0D, CHR 0x20})"

text \<open>
  \<^verbatim>\<open>re.FindStringSubmatch(line)\<close> for \<^verbatim>\<open>^(\d+)/tcp\s+open\<close>: nil when the line does not
  start with a match, else the whole match and the digits of group 1. Both repetitions
  are greedy and are followed by a character outside their class, so the longest run is
  the only candidate.
\<close>

definition FindStringSubmatch :: "string \<Rightarrow> string list option" where
  "FindStringSubmatch line =
     (let ds = takeWhile is_digit line; r1 = dropWhile is_digit line in
      if ds = [] then None
      else if take 4 r1 \<noteq> ''/tcp'' then None
      else (let r2 = drop 4 r1;
                ws = takeWhile is_re_space r2;
                r3 = dropWhile is_re_space r2 in
            if ws = [] then None
            else if take 4 r3 \<noteq> ''open'' then None
            else Some [ds @ ''/tcp'' @ ws @ ''open'', ds]))"

text \<open>
  \<^verbatim>\<open>strconv.Atoi\<close> on a 64-bit platform, with the value it returns next to an error:
  the fast path for strings of fewer than 19 bytes, and \<^verbatim>\<open>ParseInt(s, 10, 0)\<close> over
  \<^verbatim>\<open>ParseUint\<close> otherwise, which on overflow return the largest value of the type
  together with a range error. Unsigned 64-bit values are integers with the overflow
  tests written out.
\<close>

datatype num_error = ErrSyntax | ErrRange

definition intSize :: nat where "intSize = 64"

definition maxInt :: int where "maxInt = 2 ^ (intSize - 1) - 1"

definition maxUint64 :: int where "maxUint64 = 2 ^ 64 - 1"

fun ParseUint_loop :: "string \<Rightarrow> int \<Rightarrow> int \<times> num_error option" where
  "ParseUint_loop [] n = (n, None)"
| "ParseUint_loop (c # cs) n =
     (if \<not> is_digit c then (0, Some ErrSyntax)
      else if n \<ge> maxUint64 div 10 + 1 then (2 ^ intSize - 1, Some ErrRange)
      else (let n1 = n * 10 + digit_val c in
            if n1 > 2 ^ intSize - 1 then (2 ^ intSize - 1, Some ErrRange)
            else ParseUint_loop cs n1))"

definition ParseUint :: "string \<Rightarrow> int \<times> num_error option" where
  "ParseUint s = (if s = [] then (0, Some ErrSyntax) else ParseUint_loop s 0)"

definition ParseInt :: "string \<Rightarrow> int \<times> num_error option" where
  "ParseInt s =
     (if s = [] then (0, Some ErrSyntax)
      else (let neg = (hd s = CHR ''-'');
                s1 = (if hd s = CHR ''+'' \<or> hd s = CHR ''-'' then tl s else s);
                (un, err) = ParseUint s1 in
            if err = Some ErrSyntax then (0, err)
            else (let cutoff = 2 ^ (intSize - 1) in
                  if \<not> neg \<and> un \<ge> cutoff then (cutoff - 1, Some ErrRange)
                  else if neg \<and> un > cutoff then (- cutoff, Some ErrRange)
                  else (if neg then - un else un, None))))"

fun Atoi_loop :: "string \<Rightarrow> int \<Rightarrow> int option" where
  "Atoi_loop [] n = Some n"
| "Atoi_loop (ch # s) n =
     (if \<not> is_digit ch then None else Atoi_loop s (n * 10 + digit_val ch))"

definition Atoi :: "string \<Rightarrow> int \<times> num_error option" where
  "Atoi s =
     (if 0 < length s \<and> length s < 19 then
        (let s1 = (if hd s = CHR ''-'' \<or> hd s = CHR ''+'' then tl s else s) in
         if length s1 < 1 then (0, Some ErrSyntax)
         else (case Atoi_loop s1 0 of
                 None \<Rightarrow> (0, Some ErrSyntax)
               | Some n \<Rightarrow> (if hd s = CHR ''-'' then - n else n, None)))
      else ParseInt s)"

text \<open>The body of the scanning loop of \<^verbatim>\<open>parseNmap\<close>; the error of \<^verbatim>\<open>Atoi\<close> is
  discarded, as in \<^verbatim>\<open>p, _ := strconv.Atoi(m[1])\<close>.\<close>

definition parse_line :: "string \<Rightarrow> PortSet \<Rightarrow> PortSet" where
  "parse_line text ports =
     (let line = TrimSpace text in
      case FindStringSubmatch line of
        None \<Rightarrow> ports
      | Some m \<Rightarrow> (let p = fst (Atoi (m ! 1)) in if p > 0 then insert p ports else ports))"

fun parse_lines :: "string list \<Rightarrow> PortSet \<Rightarrow> PortSet" where
  "parse_lines [] ports = ports"
| "parse_lines (text # rest) ports = parse_lines rest (parse_line text ports)"

text \<open>\<^verbatim>\<open>parseNmap\<close> once the file is open: the pair \<^verbatim>\<open>ports, s.Err()\<close>.\<close>

definition parseNmap_content :: "string \<Rightarrow> PortSet \<times> error option" where
  "parseNmap_content content =
     (let (lines, err) = scan_lines content in (parse_lines lines {}, err))"

text \<open>\<^verbatim>\<open>parseNmap\<close>, with the file system as a map from paths to contents; when
  \<^verbatim>\<open>os.Open\<close> fails the result is the nil map and the error.\<close>

definition parseNmap :: "(string \<rightharpoonup> string) \<Rightarrow> string \<Rightarrow> PortSet \<times> error option" where
  "parseNmap fs path =
     (case fs path of
        None \<Rightarrow> ({}, Some ErrOpen)
      | Some content \<Rightarrow> parseNmap_content content)"

text \<open>\<^verbatim>\<open>main\<close> from the call of \<^verbatim>\<open>parseNmap\<close> on: \<^verbatim>\<open>log.Fatalf\<close> when it returns an
  error, the report otherwise.\<close>

datatype run_result = Fatal error | Printed string

definition run :: "bool \<Rightarrow> (string \<rightharpoonup> string) \<Rightarrow> string \<Rightarrow> run_result" where
  "run noColor fs path =
     (case parseNmap fs path of
        (openPorts, Some err) \<Rightarrow> Fatal err
      | (openPorts, None) \<Rightarrow> Printed (main_report noColor openPorts))"

text \<open>
  The words of the input contract: the decimal value of a run of digits, and a line that
  begins with the digits \<open>ds\<close>, then \<^verbatim>\<open>/tcp\<close>, then white space, then \<^verbatim>\<open>open\<close>.
\<close>

definition dec_val :: "string \<Rightarrow> int" where
  "dec_val ds = foldl (\<lambda>n c. n * 10 + digit_val c) 0 ds"

definition open_port_line :: "string \<Rightarrow> string \<Rightarrow> bool" where
  "open_port_line line ds \<longleftrightarrow>
     ds \<noteq> [] \<and> (\<forall>c \<in> set ds. is_digit c)
     \<and> (\<exists>ws rest. ws \<noteq> [] \<and> (\<forall>c \<in> set ws. is_re_space c)
            \<and> line = ds @ ''/tcp'' @ ws @ ''open'' @ rest)"



text \<open>
  The text of a port list printed in the order given, with no sorting: what the output
  contract compares \<^verbatim>\<open>joinPorts\<close> with.
\<close>

definition render_ports :: "bool \<Rightarrow> int list \<Rightarrow> string \<Rightarrow> bool \<Rightarrow> bool \<Rightarrow> string" where
  "render_ports noColor ports colour boldOn faintOn =
     Join (map (\<lambda>p. style noColor (Itoa p) colour boldOn faintOn) ports) '', ''"

text \<open>
  The line printed for one matching signature, as a function of the three port lists it
  shows (each printed in the order given).
\<close>

definition block_text :: "bool \<Rightarrow> string \<Rightarrow> int list \<Rightarrow> int list \<Rightarrow> int list \<Rightarrow> string" where
  "block_text noColor name req present missing =
     style noColor mark green True False @ '' ''
       @ style noColor (''Possible '' @ name @ '' detected'') cyan True False @ '': ''
       @ ''Required ports '' @ render_ports noColor req green True False @ '' are present''
       @ (if present = [] then []
          else '', optional ports '' @ render_ports noColor present yellow True False
                 @ '' are also present'')
       @ (if missing = [] then []
          else '', optional ports '' @ render_ports noColor missing [] False True
                 @ '' are missing'')
       @ NL"

section \<open>Properties of the matcher helpers\<close>

lemma hasAll_iff_subset: "hasAll P req \<longleftrightarrow> set req \<subseteq> P"
  by (induction req) auto

lemma presentOptional_loop_filter:
  "presentOptional_loop P opt acc = acc @ filter (\<lambda>p. p \<in> P) opt"
  by (induction opt arbitrary: acc) auto

lemma presentOptional_filter: "presentOptional P opt = filter (\<lambda>p. p \<in> P) opt"
  by (simp add: presentOptional_def presentOptional_loop_filter)

lemma diff_build_set: "diff_build sub m = m \<union> set sub"
  by (induction sub arbitrary: m) auto

lemma diff_collect_filter: "diff_collect m all acc = acc @ filter (\<lambda>p. p \<notin> m) all"
  by (induction all arbitrary: acc) auto

lemma diff_filter: "diff all sub = filter (\<lambda>p. p \<notin> set sub) all"
  by (simp add: diff_def diff_build_set diff_collect_filter)

text \<open>
  Claim C1. For every port set \<open>P\<close> and every signature \<open>S\<close>, the match test
  \<open>hasAll P (Required S)\<close> is true exactly when every required port of \<open>S\<close> is a member
  of \<open>P\<close>. In particular it is true when \<open>Required S\<close> is empty, and for the empty port set
  it is true only when \<open>Required S\<close> is empty.
\<close>

theorem hasAll_iff_required_present:
  "(hasAll P (Required S) \<longleftrightarrow> (\<forall>p \<in> set (Required S). p \<in> P))
   \<and> (Required S = [] \<longrightarrow> hasAll P (Required S))
   \<and> (hasAll {} (Required S) \<longleftrightarrow> Required S = [])"
proof (intro conjI)
  show "hasAll P (Required S) \<longleftrightarrow> (\<forall>p \<in> set (Required S). p \<in> P)"
    by (auto simp: hasAll_iff_subset)
  show "Required S = [] \<longrightarrow> hasAll P (Required S)"
    by simp
  show "hasAll {} (Required S) \<longleftrightarrow> Required S = []"
    by (simp add: hasAll_iff_subset)
qed

theorem hasAll_iff_required_present_witness:
  "hasAll {139, 445, 80} (Required \<lparr>Name = ''SMB'', Required = [139, 445], Optional = []\<rparr>)
   \<and> \<not> hasAll {139, 80} (Required \<lparr>Name = ''SMB'', Required = [139, 445], Optional = []\<rparr>)
   \<and> hasAll {80} (Required \<lparr>Name = ''none'', Required = [], Optional = []\<rparr>)
   \<and> \<not> hasAll {} (Required \<lparr>Name = ''SMB'', Required = [139, 445], Optional = []\<rparr>)"
  using hasAll_iff_required_present
          [of "{139, 445, 80}" "\<lparr>Name = ''SMB'', Required = [139, 445], Optional = []\<rparr>"]
        hasAll_iff_required_present
          [of "{139, 80}" "\<lparr>Name = ''SMB'', Required = [139, 445], Optional = []\<rparr>"]
        hasAll_iff_required_present
          [of "{80}" "\<lparr>Name = ''none'', Required = [], Optional = []\<rparr>"]
  by simp

lemma diff_present: "diff opt (presentOptional P opt) = filter (\<lambda>p. p \<notin> P) opt"
  unfolding diff_filter presentOptional_filter
  by (rule filter_cong) auto

text \<open>
  Claim C2. For every port set \<open>P\<close> and every optional-port list \<open>O\<close> (the empty ones
  included), the ports of \<open>presentOptional P O\<close> and of
  \<open>diff O (presentOptional P O)\<close> partition the ports of \<open>O\<close>: their union is the set of
  \<open>O\<close> and they have no port in common. Counted with repetitions, every entry of \<open>O\<close>
  goes to exactly one of the two lists.
\<close>

theorem present_missing_partition:
  "set (presentOptional P opt) \<union> set (diff opt (presentOptional P opt)) = set opt
   \<and> set (presentOptional P opt) \<inter> set (diff opt (presentOptional P opt)) = {}
   \<and> mset (presentOptional P opt) + mset (diff opt (presentOptional P opt)) = mset opt"
  unfolding diff_present by (auto simp: presentOptional_filter)

theorem present_missing_partition_witness:
  "presentOptional {53, 88, 389, 445, 464, 3268} [636, 3268, 3269, 5985, 9389] = [3268]
   \<and> diff [636, 3268, 3269, 5985, 9389]
         (presentOptional {53, 88, 389, 445, 464, 3268} [636, 3268, 3269, 5985, 9389])
       = [636, 3269, 5985, 9389]
   \<and> set [3268] \<union> set [636, 3269, 5985, 9389] = set [636, 3268, 3269, 5985, 9389 :: int]
   \<and> set (presentOptional {} []) \<union> set (diff [] (presentOptional {} [])) = {}"
  using present_missing_partition
          [of "{53, 88, 389, 445, 464, 3268}" "[636, 3268, 3269, 5985, 9389]"]
        present_missing_partition [of "{}" "[]"]
  by (simp add: presentOptional_def diff_def)

text \<open>
  Claim C9. For every port set \<open>P\<close> and optional list \<open>O\<close>, \<open>presentOptional P O\<close> is
  \<open>O\<close> with the ports outside \<open>P\<close> removed and the order kept, hence a subsequence of
  \<open>O\<close>; \<open>diff O X\<close> is \<open>O\<close> with the ports of \<open>X\<close> removed and the order kept, hence a
  subsequence of \<open>O\<close> holding exactly the ports of \<open>O\<close> that are not in \<open>X\<close>. Neither
  function sorts: on the declaration order \<open>[9300, 26379, 16379]\<close> both return their ports
  in that order.
\<close>

theorem presentOptional_diff_keep_order:
  "presentOptional P opt = filter (\<lambda>p. p \<in> P) opt
   \<and> subseq (presentOptional P opt) opt
   \<and> diff opt X = filter (\<lambda>p. p \<notin> set X) opt
   \<and> subseq (diff opt X) opt
   \<and> set (diff opt X) = set opt - set X
   \<and> presentOptional {9300, 16379, 26379} [9300, 26379, 16379] = [9300, 26379, 16379]
   \<and> diff [9300, 26379, 16379] [9300] = [26379, 16379]"
  by (auto simp: presentOptional_filter diff_filter)

theorem presentOptional_diff_keep_order_witness:
  "presentOptional {902, 5480} [5480, 902] = [5480, 902]
   \<and> subseq (presentOptional {902} [5480, 902]) [5480, 902]
   \<and> diff [3600, 8000, 8001, 3299] [8000] = [3600, 8001, 3299]"
  using presentOptional_diff_keep_order [of "{902, 5480}" "[5480, 902]" "[]"]
        presentOptional_diff_keep_order [of "{902}" "[5480, 902]" "[]"]
        presentOptional_diff_keep_order [of "{}" "[3600, 8000, 8001, 3299]" "[8000]"]
  by simp

section \<open>The rendered line of a signature\<close>

lemma joinPorts_eq:
  "joinPorts nc ports colour b f = (render_ports nc (sort ports) colour b f, sort ports)"
  by (simp add: joinPorts_def render_ports_def Let_def)

lemma diff_sort: "diff all (sort xs) = diff all xs"
  by (simp add: diff_filter)

lemma presentOptional_Nil: "presentOptional P [] = []"
  by (simp add: presentOptional_def)

lemma diff_Nil: "diff [] xs = []"
  by (simp add: diff_filter)

lemma sort_eq_Nil: "sort xs = [] \<longleftrightarrow> xs = []"
  by (cases xs) (auto simp: sort_key_def)

lemma sort_sort: "sort (sort xs) = sort (xs :: int list)"
  by (simp add: sorted_sort_id)

lemma sig_block_eq:
  "sig_block nc P S =
     (block_text nc (Name S) (sort (Required S)) (sort (presentOptional P (Optional S)))
        (sort (diff (Optional S) (presentOptional P (Optional S)))),
      S\<lparr>Required := sort (Required S)\<rparr>)"
proof (cases "Optional S = []")
  case True
  then show ?thesis
    by (simp add: sig_block_def block_text_def joinPorts_eq presentOptional_Nil diff_Nil)
next
  case opt: False
  show ?thesis
  proof (cases "presentOptional P (Optional S) = []")
    case True
    with opt show ?thesis
      by (simp add: sig_block_def block_text_def joinPorts_eq sort_eq_Nil Let_def)
  next
    case False
    with opt show ?thesis
      by (simp add: sig_block_def block_text_def joinPorts_eq diff_sort sort_eq_Nil Let_def)
  qed
qed

lemma hasAll_sort: "hasAll P (sort req) = hasAll P req"
  by (simp add: hasAll_iff_subset)

lemma sig_block_again:
  "sig_block nc P (snd (sig_block nc P S)) = sig_block nc P S"
  by (simp add: sig_block_eq sort_sort)

lemma report_loop_eq:
  "report_loop nc P sigs (any, out, visited) =
     (any \<or> (\<exists>S \<in> set sigs. hasAll P (Required S)),
      out @ concat (map (\<lambda>S. fst (sig_block nc P S)) (filter (\<lambda>S. hasAll P (Required S)) sigs)),
      visited @ map (\<lambda>S. if hasAll P (Required S) then snd (sig_block nc P S) else S) sigs)"
  by (induction sigs arbitrary: any out visited) (auto simp: case_prod_unfold Let_def)

text \<open>
  Claim C3, as stated, fails: \<open>presentOptional\<close> does not return its result in ascending
  order. On the NFS entry, whose optional ports are declared as \<open>[20048, 4045, 4049]\<close>,
  with all three open, it returns them in the declared order.
\<close>

theorem presentOptional_not_ascending_counterexample:
  "\<not> sorted (presentOptional {4045, 4049, 20048} [20048, 4045, 4049])"
  by (simp add: presentOptional_def)

text \<open>
  Claim C3, amended. For every port set and every signature, the required, present-optional
  and missing-optional port lists that the line of a matching signature shows are the
  ascending rearrangements (\<open>sort\<close>) of \<open>Required\<close>, of \<open>presentOptional\<close> and of \<open>diff\<close>,
  whatever the order in which the catalog declares the ports; the sorting is done by
  \<open>joinPorts\<close> when a list is printed, and \<open>presentOptional\<close> itself returns its ports
  in the catalog's declaration order.
\<close>

theorem rendered_port_lists_ascending:
  "fst (sig_block nc P S) =
     block_text nc (Name S) (sort (Required S)) (sort (presentOptional P (Optional S)))
       (sort (diff (Optional S) (presentOptional P (Optional S))))
   \<and> sorted (sort (Required S)) \<and> mset (sort (Required S)) = mset (Required S)
   \<and> sorted (sort (presentOptional P (Optional S)))
   \<and> mset (sort (presentOptional P (Optional S))) = mset (presentOptional P (Optional S))
   \<and> sorted (sort (diff (Optional S) (presentOptional P (Optional S))))
   \<and> mset (sort (diff (Optional S) (presentOptional P (Optional S))))
       = mset (diff (Optional S) (presentOptional P (Optional S)))
   \<and> presentOptional P (Optional S) = filter (\<lambda>p. p \<in> P) (Optional S)"
  by (simp add: sig_block_eq presentOptional_filter)

theorem rendered_port_lists_ascending_witness:
  "fst (sig_block True {111, 2049, 4045, 20048}
          \<lparr>Name = ''NFS server (rpcbind + nfsd)'', Required = [2049, 111],
            Optional = [20048, 4045, 4049]\<rparr>)
     = mark @ '' Possible NFS server (rpcbind + nfsd) detected: Required ports 111, 2049 are present, optional ports 4045, 20048 are also present, optional ports 4049 are missing'' @ NL"
  using rendered_port_lists_ascending [of True "{111, 2049, 4045, 20048}"
          "\<lparr>Name = ''NFS server (rpcbind + nfsd)'', Required = [2049, 111],
            Optional = [20048, 4045, 4049]\<rparr>"]
  by (simp add: block_text_def render_ports_def style_def Itoa_def presentOptional_filter diff_filter)

section \<open>The report\<close>

lemma report_nonempty:
  "P \<noteq> {} \<Longrightarrow> report nc sigs P =
     (concat (map (\<lambda>S. fst (sig_block nc P S)) (filter (\<lambda>S. hasAll P (Required S)) sigs))
        @ (if \<exists>S \<in> set sigs. hasAll P (Required S) then []
           else style nc ''No composite service signatures recognised.'' yellow False False @ NL)
        @ NL,
      map (\<lambda>S. if hasAll P (Required S) then snd (sig_block nc P S) else S) sigs)"
  by (simp add: report_def report_loop_eq)

lemma visited_sig_hasAll:
  "hasAll P (Required (if hasAll P (Required S) then snd (sig_block nc P S) else S))
     = hasAll P (Required S)"
  by (simp add: sig_block_eq hasAll_sort)

lemma visited_sig_block:
  "sig_block nc P (if hasAll P (Required S) then snd (sig_block nc P S) else S)
     = sig_block nc P S"
  by (simp add: sig_block_again)

lemma visited_sig_idem:
  "(if hasAll P (Required (if hasAll P (Required S) then snd (sig_block nc P S) else S))
    then snd (sig_block nc P (if hasAll P (Required S) then snd (sig_block nc P S) else S))
    else (if hasAll P (Required S) then snd (sig_block nc P S) else S))
   = (if hasAll P (Required S) then snd (sig_block nc P S) else S)"
  unfolding visited_sig_hasAll visited_sig_block by simp

lemma report_visited:
  assumes False: "P \<noteq> {}"
  shows "report nc (map (\<lambda>S. if hasAll P (Required S) then snd (sig_block nc P S) else S) sigs) P
     = report nc sigs P"
proof -
  let ?g = "\<lambda>S. if hasAll P (Required S) then snd (sig_block nc P S) else S"
  have f: "concat (map (\<lambda>S. fst (sig_block nc P S)) (filter (\<lambda>S. hasAll P (Required S)) (map ?g sigs)))
           = concat (map (\<lambda>S. fst (sig_block nc P S)) (filter (\<lambda>S. hasAll P (Required S)) sigs))"
  proof (induction sigs)
    case Nil
    show ?case by simp
  next
    case (Cons S sigs)
    show ?case
    proof (cases "hasAll P (Required S)")
      case True
      then have "hasAll P (Required (?g S))" using visited_sig_hasAll [of P S nc] by simp
      moreover have "sig_block nc P (?g S) = sig_block nc P S" by (rule visited_sig_block)
      ultimately show ?thesis using True Cons.IH by (simp del: if_split)
    next
      case False
      then show ?thesis using Cons.IH by simp
    qed
  qed
  have e: "(\<exists>S \<in> set (map ?g sigs). hasAll P (Required S)) \<longleftrightarrow> (\<exists>S \<in> set sigs. hasAll P (Required S))"
  proof -
    have "(\<exists>S \<in> set (map ?g sigs). hasAll P (Required S))
            \<longleftrightarrow> (\<exists>S \<in> set sigs. hasAll P (Required (?g S)))"
      by (simp only: set_map bex_simps(7))
    then show ?thesis unfolding visited_sig_hasAll .
  qed
  have m: "map ?g (map ?g sigs) = map ?g sigs"
    unfolding map_map o_def visited_sig_idem ..
  show ?thesis
    unfolding report_nonempty [OF False] f e m ..
qed

text \<open>
  Claim C4. For every non-empty port set, the report is the sequence of the lines of the
  matching signatures, one per signature whose required ports are all open, in the order
  of the catalog; a signature that does not match contributes nothing. A matching
  signature with no optional ports has empty present and missing lists, and its line has
  the required-ports message only.
\<close>

theorem report_blocks_in_catalog_order:
  "(P \<noteq> {} \<longrightarrow>
      fst (report nc sigs P) =
        concat (map (\<lambda>S. fst (sig_block nc P S)) (filter (\<lambda>S. hasAll P (Required S)) sigs))
        @ (if \<exists>S \<in> set sigs. hasAll P (Required S) then []
           else style nc ''No composite service signatures recognised.'' yellow False False @ NL)
        @ NL)
   \<and> (P \<noteq> {} \<longrightarrow>
      main_report nc P =
        concat (map (\<lambda>S. fst (sig_block nc P S))
                  (filter (\<lambda>S. hasAll P (Required S)) knownSignatures))
        @ (if \<exists>S \<in> set knownSignatures. hasAll P (Required S) then []
           else style nc ''No composite service signatures recognised.'' yellow False False @ NL)
        @ NL)
   \<and> (Optional S = [] \<longrightarrow>
      presentOptional P (Optional S) = []
      \<and> diff (Optional S) (presentOptional P (Optional S)) = []
      \<and> fst (sig_block nc P S) =
          style nc mark green True False @ '' ''
          @ style nc (''Possible '' @ Name S @ '' detected'') cyan True False @ '': ''
          @ ''Required ports '' @ render_ports nc (sort (Required S)) green True False
          @ '' are present'' @ NL)"
proof (intro conjI impI)
  assume "P \<noteq> {}"
  then show "fst (report nc sigs P) =
        concat (map (\<lambda>S. fst (sig_block nc P S)) (filter (\<lambda>S. hasAll P (Required S)) sigs))
        @ (if \<exists>S \<in> set sigs. hasAll P (Required S) then []
           else style nc ''No composite service signatures recognised.'' yellow False False @ NL)
        @ NL"
    by (simp add: report_nonempty)
next
  assume "P \<noteq> {}"
  then show "main_report nc P =
        concat (map (\<lambda>S. fst (sig_block nc P S))
                  (filter (\<lambda>S. hasAll P (Required S)) knownSignatures))
        @ (if \<exists>S \<in> set knownSignatures. hasAll P (Required S) then []
           else style nc ''No composite service signatures recognised.'' yellow False False @ NL)
        @ NL"
    by (simp add: main_report_def report_nonempty)
next
  assume "Optional S = []"
  then show "presentOptional P (Optional S) = []" by (simp add: presentOptional_Nil)
next
  assume "Optional S = []"
  then show "diff (Optional S) (presentOptional P (Optional S)) = []" by (simp add: diff_Nil)
next
  assume "Optional S = []"
  then show "fst (sig_block nc P S) =
          style nc mark green True False @ '' ''
          @ style nc (''Possible '' @ Name S @ '' detected'') cyan True False @ '': ''
          @ ''Required ports '' @ render_ports nc (sort (Required S)) green True False
          @ '' are present'' @ NL"
    by (simp add: sig_block_eq block_text_def presentOptional_Nil diff_Nil)
qed

theorem report_blocks_in_catalog_order_witness:
  "main_report True {445, 135, 139, 80} =
     mark @ '' Possible SMB / NetBIOS file share detected: Required ports 139, 445 are present'' @ NL
     @ mark @ '' Possible Windows RPC services (EPM + dynamic RPC) detected: Required ports 135 are present'' @ NL
     @ NL"
proof -
  have ne: "{445, 135, 139, 80} \<noteq> ({} :: int set)" by simp
  have "main_report True {445, 135, 139, 80} =
        concat (map (\<lambda>S. fst (sig_block True {445, 135, 139, 80} S))
                  (filter (\<lambda>S. hasAll {445, 135, 139, 80} (Required S)) knownSignatures))
        @ (if \<exists>S \<in> set knownSignatures. hasAll {445, 135, 139, 80} (Required S) then []
           else style True ''No composite service signatures recognised.'' yellow False False @ NL)
        @ NL"
    using report_blocks_in_catalog_order [where P = "{445, 135, 139, 80}" and nc = True] ne
    by blast
  also have "\<dots> = mark @ '' Possible SMB / NetBIOS file share detected: Required ports 139, 445 are present'' @ NL
     @ mark @ '' Possible Windows RPC services (EPM + dynamic RPC) detected: Required ports 135 are present'' @ NL
     @ NL"
    by (simp add: knownSignatures_def sig_block_eq block_text_def render_ports_def style_def
          Itoa_def presentOptional_filter diff_filter)
  finally show ?thesis .
qed

text \<open>
  Claim C5. For the empty port set the run stops before the loop over the catalog: the
  output is the "No open ports found." line whatever the catalog is, and the catalog is
  left untouched. For a non-empty port set that no signature matches, the output is the
  "No composite service signatures recognised." line followed by an empty line. The two
  outputs differ.
\<close>

theorem empty_set_and_no_match_signals_differ:
  "fst (report nc sigs {}) = style nc ''No open ports found.'' yellow False False @ NL
   \<and> snd (report nc sigs {}) = sigs
   \<and> main_report nc {} = style nc ''No open ports found.'' yellow False False @ NL
   \<and> (P \<noteq> {} \<and> (\<forall>S \<in> set sigs. \<not> hasAll P (Required S)) \<longrightarrow>
        fst (report nc sigs P) =
          style nc ''No composite service signatures recognised.'' yellow False False @ NL @ NL)
   \<and> (P \<noteq> {} \<and> (\<forall>S \<in> set knownSignatures. \<not> hasAll P (Required S)) \<longrightarrow>
        main_report nc P =
          style nc ''No composite service signatures recognised.'' yellow False False @ NL @ NL)
   \<and> style nc ''No open ports found.'' yellow False False @ NL
       \<noteq> style nc ''No composite service signatures recognised.'' yellow False False @ NL @ NL"
proof (intro conjI impI)
  show "fst (report nc sigs {}) = style nc ''No open ports found.'' yellow False False @ NL"
    by (simp add: report_def)
  show "snd (report nc sigs {}) = sigs"
    by (simp add: report_def)
  show "main_report nc {} = style nc ''No open ports found.'' yellow False False @ NL"
    by (simp add: main_report_def report_def)
  show "style nc ''No open ports found.'' yellow False False @ NL
       \<noteq> style nc ''No composite service signatures recognised.'' yellow False False @ NL @ NL"
    by (simp add: style_def yellow_def reset_def NL_def)
next
  assume "P \<noteq> {} \<and> (\<forall>S \<in> set sigs. \<not> hasAll P (Required S))"
  then show "fst (report nc sigs P) =
          style nc ''No composite service signatures recognised.'' yellow False False @ NL @ NL"
    by (simp add: report_nonempty)
next
  assume "P \<noteq> {} \<and> (\<forall>S \<in> set knownSignatures. \<not> hasAll P (Required S))"
  then show "main_report nc P =
          style nc ''No composite service signatures recognised.'' yellow False False @ NL @ NL"
    by (simp add: main_report_def report_nonempty)
qed

theorem empty_set_and_no_match_signals_differ_witness:
  "main_report True {80, 8080} = ''No composite service signatures recognised.'' @ NL @ NL
   \<and> main_report True {} = ''No open ports found.'' @ NL
   \<and> main_report True {80, 8080} \<noteq> main_report True {}"
proof -
  have ne: "{80, 8080} \<noteq> ({} :: int set)" by simp
  have nm: "\<forall>S \<in> set knownSignatures. \<not> hasAll {80, 8080} (Required S)"
    by (simp add: knownSignatures_def)
  note t = empty_set_and_no_match_signals_differ [where P = "{80, 8080}" and nc = True]
  from t ne nm have a: "main_report True {80, 8080} =
      style True ''No composite service signatures recognised.'' yellow False False @ NL @ NL"
    by blast
  from t have b: "main_report True {} = style True ''No open ports found.'' yellow False False @ NL"
    by blast
  from t have c: "style True ''No open ports found.'' yellow False False @ NL
       \<noteq> style True ''No composite service signatures recognised.'' yellow False False @ NL @ NL"
    by blast
  from a b c show ?thesis by (simp add: style_def)
qed

text \<open>
  Claim C7. Every signature of the catalog has at least one required port, and no port of
  a signature is both required and optional.
\<close>

theorem catalog_required_nonempty_disjoint:
  "\<forall>S \<in> set knownSignatures.
     Required S \<noteq> [] \<and> set (Required S) \<inter> set (Optional S) = {}"
  by (simp add: knownSignatures_def)

theorem catalog_required_nonempty_disjoint_witness:
  "Required (knownSignatures ! 18) = [8000, 8089, 9997]
   \<and> Optional (knownSignatures ! 16) = [3600, 8000, 8001, 3299]
   \<and> Required (knownSignatures ! 18) \<noteq> []
   \<and> set (Required (knownSignatures ! 18)) \<inter> set (Optional (knownSignatures ! 18)) = {}"
proof -
  have "knownSignatures ! 18 \<in> set knownSignatures"
    by (simp add: knownSignatures_def)
  from catalog_required_nonempty_disjoint [rule_format, OF this]
  show ?thesis by (simp add: knownSignatures_def)
qed

text \<open>The same holds of the catalog of the earlier copy.\<close>

lemma catalog_alt_required_nonempty_disjoint:
  "\<forall>S \<in> set knownSignatures_alt.
     Required S \<noteq> [] \<and> set (Required S) \<inter> set (Optional S) = {}"
  by (simp add: knownSignatures_alt_def)

text \<open>
  Claim C8. The report is a function of the colour flag, the catalog and the port set
  alone, and the one change a run makes (the in-place sort of the required ports of the
  matching entries) does not show in a second run: run again on the same port set and on
  the catalog as the first run left it, the report prints the same text and leaves the
  same catalog.
\<close>

theorem report_rerun_same_output:
  "report nc (snd (report nc sigs P)) P = report nc sigs P"
proof (cases "P = {}")
  case True
  then show ?thesis by (simp add: report_def)
next
  case False
  have "snd (report nc sigs P)
          = map (\<lambda>S. if hasAll P (Required S) then snd (sig_block nc P S) else S) sigs"
    unfolding report_nonempty [OF False] by (rule snd_conv)
  then show ?thesis using report_visited [OF False] by (simp only:)
qed

theorem report_rerun_same_output_witness:
  "snd (report True [\<lparr>Name = ''SMB'', Required = [445, 139], Optional = []\<rparr>] {139, 445})
     = [\<lparr>Name = ''SMB'', Required = [139, 445], Optional = []\<rparr>]
   \<and> report True [\<lparr>Name = ''SMB'', Required = [139, 445], Optional = []\<rparr>] {139, 445}
     = report True [\<lparr>Name = ''SMB'', Required = [445, 139], Optional = []\<rparr>] {139, 445}"
proof -
  have s: "snd (report True [\<lparr>Name = ''SMB'', Required = [445, 139], Optional = []\<rparr>] {139, 445})
     = [\<lparr>Name = ''SMB'', Required = [139, 445], Optional = []\<rparr>]"
    by (simp add: report_nonempty sig_block_eq)
  from report_rerun_same_output
         [of True "[\<lparr>Name = ''SMB'', Required = [445, 139], Optional = []\<rparr>]" "{139, 445}"]
  show ?thesis unfolding s by simp
qed

section \<open>The parser\<close>

subsection \<open>The regular expression\<close>

lemma FindStringSubmatch_complete:
  assumes "open_port_line line ds"
  shows "\<exists>m0. FindStringSubmatch line = Some [m0, ds]"
proof -
  from assms obtain ws rest where
    ds: "ds \<noteq> []" "\<And>c. c \<in> set ds \<Longrightarrow> is_digit c"
    and ws: "ws \<noteq> []" "\<And>c. c \<in> set ws \<Longrightarrow> is_re_space c"
    and line: "line = ds @ ''/tcp'' @ ws @ ''open'' @ rest"
    by (auto simp: open_port_line_def)
  have nd: "\<not> is_digit (CHR ''/'')" by (simp add: is_digit_def)
  have ns: "\<not> is_re_space (CHR ''o'')" by (simp add: is_re_space_def)
  have t1: "takeWhile is_digit line = ds"
    unfolding line using ds(2) nd by (simp add: takeWhile_append2)
  have d1: "dropWhile is_digit line = ''/tcp'' @ ws @ ''open'' @ rest"
    unfolding line using ds(2) nd by (simp add: dropWhile_append2)
  have t2: "takeWhile is_re_space (ws @ ''open'' @ rest) = ws"
    using ws(2) ns by (simp add: takeWhile_append2)
  have d2: "dropWhile is_re_space (ws @ ''open'' @ rest) = ''open'' @ rest"
    using ws(2) ns by (simp add: dropWhile_append2)
  show ?thesis
    unfolding FindStringSubmatch_def t1 d1 using ds(1) ws(1) t2 d2
    by (simp add: Let_def)
qed

lemma FindStringSubmatch_sound:
  assumes "FindStringSubmatch line = Some m"
  shows "open_port_line line (m ! 1)"
proof -
  let ?ds = "takeWhile is_digit line"
  let ?r1 = "dropWhile is_digit line"
  let ?r2 = "drop 4 ?r1"
  let ?ws = "takeWhile is_re_space ?r2"
  let ?r3 = "dropWhile is_re_space ?r2"
  from assms have c: "?ds \<noteq> []" "take 4 ?r1 = ''/tcp''" "?ws \<noteq> []" "take 4 ?r3 = ''open''"
    and m: "m = [?ds @ ''/tcp'' @ ?ws @ ''open'', ?ds]"
    by (auto simp: FindStringSubmatch_def Let_def split: if_splits)
  have "line = ?ds @ ?r1" by simp
  also have "?r1 = take 4 ?r1 @ ?r2" by simp
  also have "?r2 = ?ws @ ?r3" by simp
  also have "?r3 = take 4 ?r3 @ drop 4 ?r3" by simp
  finally have "line = ?ds @ ''/tcp'' @ ?ws @ ''open'' @ drop 4 ?r3"
    unfolding c(2) c(4) .
  moreover have "\<forall>c \<in> set ?ds. is_digit c" by (auto dest: set_takeWhileD)
  moreover have "\<forall>c \<in> set ?ws. is_re_space c" by (auto dest: set_takeWhileD)
  ultimately show ?thesis
    unfolding open_port_line_def m using c(1) c(3) by auto
qed

lemma FindStringSubmatch_None:
  "FindStringSubmatch line = None \<longleftrightarrow> (\<forall>ds. \<not> open_port_line line ds)"
proof
  assume "FindStringSubmatch line = None"
  then show "\<forall>ds. \<not> open_port_line line ds"
    using FindStringSubmatch_complete by fastforce
next
  assume a: "\<forall>ds. \<not> open_port_line line ds"
  show "FindStringSubmatch line = None"
  proof (cases "FindStringSubmatch line")
    case None then show ?thesis .
  next
    case (Some m)
    then show ?thesis using FindStringSubmatch_sound a by blast
  qed
qed

lemma FindStringSubmatch_group:
  "FindStringSubmatch line = Some m \<Longrightarrow> open_port_line line ds \<longleftrightarrow> ds = m ! 1"
  using FindStringSubmatch_complete [of line ds] FindStringSubmatch_sound [of line m]
  by auto

subsection \<open>\<^verbatim>\<open>Atoi\<close> on a run of digits\<close>

lemma digit_val_range: "is_digit c \<Longrightarrow> 0 \<le> digit_val c \<and> digit_val c \<le> 9"
  by (auto simp: is_digit_def digit_val_def)

lemma Atoi_loop_digits:
  "(\<forall>c \<in> set cs. is_digit c) \<Longrightarrow>
     Atoi_loop cs n = Some (foldl (\<lambda>n c. n * 10 + digit_val c) n cs)"
  by (induction cs arbitrary: n) auto

lemma foldl_digits_ge:
  "(\<forall>c \<in> set cs. is_digit c) \<Longrightarrow> 0 \<le> n \<Longrightarrow>
     n \<le> foldl (\<lambda>n c. n * 10 + digit_val c) n cs"
proof (induction cs arbitrary: n)
  case Nil
  then show ?case by simp
next
  case (Cons c cs)
  from Cons.prems have d: "0 \<le> digit_val c" using digit_val_range by auto
  with Cons.prems have "n \<le> n * 10 + digit_val c" by simp
  moreover have "n * 10 + digit_val c \<le> foldl (\<lambda>n c. n * 10 + digit_val c) (n * 10 + digit_val c) cs"
    using Cons.prems d by (intro Cons.IH) auto
  ultimately show ?case by simp
qed

lemma ParseUint_loop_digits:
  "(\<forall>c \<in> set cs. is_digit c) \<Longrightarrow> 0 \<le> n \<Longrightarrow>
     ParseUint_loop cs n =
       (if cs = [] \<or> foldl (\<lambda>n c. n * 10 + digit_val c) n cs \<le> 2 ^ 64 - 1
        then (foldl (\<lambda>n c. n * 10 + digit_val c) n cs, None)
        else (2 ^ 64 - 1, Some ErrRange))"
proof (induction cs arbitrary: n)
  case Nil
  then show ?case by simp
next
  case (Cons c cs)
  let ?f = "\<lambda>n c. n * 10 + digit_val c"
  from Cons.prems have dc: "is_digit c" and dcs: "\<forall>c \<in> set cs. is_digit c" by auto
  from dc have d: "0 \<le> digit_val c" "digit_val c \<le> 9" using digit_val_range by auto
  have n1: "0 \<le> n * 10 + digit_val c" using Cons.prems(2) d by simp
  have ge: "n * 10 + digit_val c \<le> foldl ?f (n * 10 + digit_val c) cs"
    using foldl_digits_ge [OF dcs n1] .
  show ?case
  proof (cases "n \<ge> maxUint64 div 10 + 1")
    case True
    then have "n * 10 + digit_val c > 2 ^ 64 - 1" using d by (simp add: maxUint64_def)
    with ge have "\<not> foldl ?f (n * 10 + digit_val c) cs \<le> 2 ^ 64 - 1" by linarith
    with True dc show ?thesis by (simp add: intSize_def)
  next
    case small: False
    show ?thesis
    proof (cases "n * 10 + digit_val c > 2 ^ 64 - 1")
      case True
      with ge have "\<not> foldl ?f (n * 10 + digit_val c) cs \<le> 2 ^ 64 - 1" by linarith
      with True small dc show ?thesis by (simp add: intSize_def Let_def)
    next
      case False
      have "ParseUint_loop (c # cs) n = ParseUint_loop cs (n * 10 + digit_val c)"
        using False small dc by (simp add: intSize_def Let_def)
      also have "\<dots> = (if cs = [] \<or> foldl ?f (n * 10 + digit_val c) cs \<le> 2 ^ 64 - 1
        then (foldl ?f (n * 10 + digit_val c) cs, None)
        else (2 ^ 64 - 1, Some ErrRange))"
        using Cons.IH [OF dcs n1] .
      also have "\<dots> = (if foldl ?f (n * 10 + digit_val c) cs \<le> 2 ^ 64 - 1
        then (foldl ?f (n * 10 + digit_val c) cs, None)
        else (2 ^ 64 - 1, Some ErrRange))"
        using False by (cases cs) auto
      finally show ?thesis by simp
    qed
  qed
qed

lemma dec_val_bounds:
  "(\<forall>c \<in> set ds. is_digit c) \<Longrightarrow> 0 \<le> dec_val ds \<and> dec_val ds < 10 ^ length ds"
proof (induction ds rule: rev_induct)
  case Nil
  then show ?case by (simp add: dec_val_def)
next
  case (snoc c ds)
  then have ih: "0 \<le> dec_val ds" "dec_val ds < 10 ^ length ds" by auto
  from snoc.prems have d: "0 \<le> digit_val c" "digit_val c \<le> 9" using digit_val_range by auto
  have e: "dec_val (ds @ [c]) = dec_val ds * 10 + digit_val c" by (simp add: dec_val_def)
  from ih(2) have "dec_val ds + 1 \<le> 10 ^ length ds" by simp
  then have "(dec_val ds + 1) * 10 \<le> 10 ^ length ds * 10" by (rule mult_right_mono) simp
  with d ih(1) show ?case unfolding e by (simp add: algebra_simps)
qed

lemma digit_not_sign: "is_digit c \<Longrightarrow> c \<noteq> CHR ''-'' \<and> c \<noteq> CHR ''+''"
  by (auto simp: is_digit_def)

lemma Atoi_digits:
  assumes ne: "ds \<noteq> []" and dg: "\<forall>c \<in> set ds. is_digit c"
  shows "fst (Atoi ds) = min (dec_val ds) maxInt"
proof -
  from ne dg have "is_digit (hd ds)" by (cases ds) auto
  then have sign: "hd ds \<noteq> CHR ''-''" "hd ds \<noteq> CHR ''+''" using digit_not_sign by auto
  show ?thesis
  proof (cases "length ds < 19")
    case True
    have "dec_val ds < 10 ^ length ds" using dec_val_bounds [OF dg] by simp
    also have "(10::int) ^ length ds \<le> 10 ^ 18"
      using True by (intro power_increasing) auto
    finally have "dec_val ds \<le> maxInt" by (simp add: maxInt_def intSize_def)
    moreover have "fst (Atoi ds) = dec_val ds"
      using True ne sign Atoi_loop_digits [OF dg, of 0]
      by (simp add: Atoi_def dec_val_def Let_def)
    ultimately show ?thesis by simp
  next
    case False
    have pu: "ParseUint ds = (if dec_val ds \<le> 2 ^ 64 - 1 then (dec_val ds, None)
                              else (2 ^ 64 - 1, Some ErrRange))"
      using ne ParseUint_loop_digits [OF dg, of 0] by (simp add: ParseUint_def dec_val_def)
    have "fst (Atoi ds) = fst (ParseInt ds)" using False by (simp add: Atoi_def)
    also have "\<dots> = min (dec_val ds) maxInt"
      using ne sign by (simp add: ParseInt_def pu Let_def intSize_def maxInt_def)
    finally show ?thesis .
  qed
qed

subsection \<open>The scanning loop\<close>

lemma parse_line_eq:
  "parse_line text ports =
     ports \<union> {p. 0 < p \<and> (\<exists>ds. open_port_line (TrimSpace text) ds \<and> p = min (dec_val ds) maxInt)}"
proof (cases "FindStringSubmatch (TrimSpace text)")
  case None
  then have "\<forall>ds. \<not> open_port_line (TrimSpace text) ds"
    by (simp add: FindStringSubmatch_None)
  with None show ?thesis by (simp add: parse_line_def)
next
  case (Some m)
  have g: "\<And>ds. open_port_line (TrimSpace text) ds \<longleftrightarrow> ds = m ! 1"
    using FindStringSubmatch_group [OF Some] .
  then have "open_port_line (TrimSpace text) (m ! 1)" by simp
  then have "m ! 1 \<noteq> []" "\<forall>c \<in> set (m ! 1). is_digit c"
    by (auto simp: open_port_line_def)
  then have a: "fst (Atoi (m ! 1)) = min (dec_val (m ! 1)) maxInt"
    by (rule Atoi_digits)
  show ?thesis
    using a by (auto simp: parse_line_def Some g Let_def)
qed

lemma parse_lines_eq:
  "parse_lines ls ports =
     ports \<union> {p. 0 < p \<and> (\<exists>text \<in> set ls. \<exists>ds. open_port_line (TrimSpace text) ds
                                \<and> p = min (dec_val ds) maxInt)}"
proof (induction ls arbitrary: ports)
  case Nil
  show ?case by simp
next
  case (Cons t ls)
  show ?case
    unfolding parse_lines.simps Cons.IH parse_line_eq by auto
qed

lemma parseNmap_content_ports:
  "fst (parseNmap_content content) =
     {p. 0 < p \<and> (\<exists>text \<in> set (fst (scan_lines content)). \<exists>ds.
            open_port_line (TrimSpace text) ds \<and> p = min (dec_val ds) maxInt)}"
  by (simp add: parseNmap_content_def case_prod_unfold parse_lines_eq Let_def)


lemma scan_lines_Nil: "scan_lines [] = ([], None)"
  by (subst scan_lines.simps) simp

lemma scan_lines_line:
  assumes "CHR 0x0A \<notin> set l" and "int (length l) < MaxScanTokenSize"
  shows "scan_lines (l @ CHR 0x0A # rest) =
           (dropCR l # fst (scan_lines rest), snd (scan_lines rest))"
proof -
  have t: "takeWhile (\<lambda>c. c \<noteq> CHR 0x0A) (l @ CHR 0x0A # rest) = l"
    using assms(1) by (induction l) auto
  show ?thesis
    by (subst scan_lines.simps) (use assms(2) in \<open>simp add: t case_prod_unfold Let_def\<close>)
qed

lemma scan_lines_unlines:
  "(\<forall>l \<in> set ls. CHR 0x0A \<notin> set l \<and> int (length l) < MaxScanTokenSize) \<Longrightarrow>
     scan_lines (concat (map (\<lambda>l. l @ NL) ls)) = (map dropCR ls, None)"
proof (induction ls)
  case Nil
  show ?case by (simp add: scan_lines_Nil)
next
  case (Cons l ls)
  then show ?case by (simp add: NL_def scan_lines_line)
qed

lemma parse_line_idem: "parse_line text (parse_line text ports) = parse_line text ports"
  unfolding parse_line_eq by auto

lemma finite_parse_line: "finite ports \<Longrightarrow> finite (parse_line text ports)"
  by (simp add: parse_line_def Let_def split: option.splits)

lemma finite_parse_lines: "finite ports \<Longrightarrow> finite (parse_lines ls ports)"
  by (induction ls arbitrary: ports) (auto simp: finite_parse_line)

lemma card_parse_line: "finite ports \<Longrightarrow> card (parse_line text ports) \<le> Suc (card ports)"
  by (simp add: parse_line_def Let_def card_insert_if split: option.splits)

lemma card_parse_lines:
  "finite ports \<Longrightarrow> card (parse_lines ls ports) \<le> card ports + length ls"
proof (induction ls arbitrary: ports)
  case Nil
  show ?case by simp
next
  case (Cons t ls)
  have "card (parse_lines ls (parse_line t ports)) \<le> card (parse_line t ports) + length ls"
    using Cons.prems by (intro Cons.IH finite_parse_line)
  also have "\<dots> \<le> Suc (card ports) + length ls"
    using card_parse_line [OF Cons.prems] by simp
  finally show ?case by simp
qed









lemma maxInt_val: "maxInt = 9223372036854775807"
  by (simp add: maxInt_def intSize_def)

subsection \<open>The whole run\<close>

lemma run_open_error: "fs path = None \<Longrightarrow> run noColor fs path = Fatal ErrOpen"
  by (simp add: run_def parseNmap_def)

lemma run_short_lines:
  assumes "fs path = Some (concat (map (\<lambda>l. l @ NL) ls))"
    and "\<forall>l \<in> set ls. CHR 0x0A \<notin> set l \<and> int (length l) < MaxScanTokenSize"
  shows "run noColor fs path
           = Printed (main_report noColor (parse_lines (map dropCR ls) {}))"
  using assms
  by (simp add: run_def parseNmap_def parseNmap_content_def scan_lines_unlines)

lemma run_example:
  "run True [''scan.nmap'' \<mapsto> ''PORT     STATE SERVICE'' @ NL @ ''135/tcp  open  msrpc'' @ NL
                                 @ ''139/tcp  open  netbios-ssn'' @ NL
                                 @ ''445/tcp  open  microsoft-ds'' @ NL] ''scan.nmap''
   = Printed (mark @ '' Possible SMB / NetBIOS file share detected: Required ports 139, 445 are present'' @ NL
        @ mark @ '' Possible Windows RPC services (EPM + dynamic RPC) detected: Required ports 135 are present'' @ NL
        @ NL)"
  by code_simp

subsection \<open>The port set of a report\<close>




text \<open>
  Claim C10, as stated, fails above the range of Go's \<^verbatim>\<open>int\<close>: the line
  \<^verbatim>\<open>9223372036854775808/tcp open\<close> matches the pattern with the digits of \<open>2\<^sup>6\<^sup>3\<close>, an
  integer above 65535, but \<^verbatim>\<open>Atoi\<close> returns \<open>2\<^sup>6\<^sup>3 - 1\<close> for it (its range error is
  discarded), so the port set is \<open>{2\<^sup>6\<^sup>3 - 1}\<close> and does not hold \<open>2\<^sup>6\<^sup>3\<close>.
\<close>

theorem port_above_maxInt_counterexample:
  "open_port_line (TrimSpace ''9223372036854775808/tcp open'') ''9223372036854775808''
   \<and> dec_val ''9223372036854775808'' = 9223372036854775808
   \<and> fst (scan_lines ''9223372036854775808/tcp open'') = [''9223372036854775808/tcp open'']
   \<and> fst (parseNmap_content ''9223372036854775808/tcp open'') = {9223372036854775807}
   \<and> 9223372036854775808 \<notin> fst (parseNmap_content ''9223372036854775808/tcp open'')"
proof -
  have m: "FindStringSubmatch (TrimSpace ''9223372036854775808/tcp open'')
             = Some [''9223372036854775808/tcp open'', ''9223372036854775808'']"
    by code_simp
  have o: "open_port_line (TrimSpace ''9223372036854775808/tcp open'') ''9223372036854775808''"
    using FindStringSubmatch_sound [OF m] by simp
  have d: "dec_val ''9223372036854775808'' = 9223372036854775808"
    by (simp add: dec_val_def digit_val_def)
  have s: "fst (scan_lines ''9223372036854775808/tcp open'') = [''9223372036854775808/tcp open'']"
    by code_simp
  have p: "fst (parseNmap_content ''9223372036854775808/tcp open'') = {9223372036854775807}"
    by code_simp
  from o d s p show ?thesis by simp
qed

text \<open>
  Claim C10, amended. Every port in the set returned by the parser is a strictly positive
  integer and is held once: the set is finite, has at most one member per line, and a
  second line for the same port changes nothing. The line \<^verbatim>\<open>0/tcp open\<close> matches the
  pattern and contributes no port. An integer above 65535 and up to \<open>2\<^sup>6\<^sup>3 - 1\<close>, the
  largest \<^verbatim>\<open>int\<close>, is in the set whenever a line matches with digits of that value.
\<close>

theorem parseNmap_ports_positive_once:
  "(\<forall>q \<in> fst (parseNmap_content content). 0 < q)
   \<and> finite (fst (parseNmap_content content))
   \<and> card (fst (parseNmap_content content)) \<le> length (fst (scan_lines content))
   \<and> parse_line t (parse_line t ports) = parse_line t ports
   \<and> FindStringSubmatch (TrimSpace ''0/tcp open'') = Some [''0/tcp open'', ''0'']
   \<and> fst (parseNmap_content ''0/tcp open'') = {}
   \<and> (65535 < p \<and> p \<le> maxInt \<and> t \<in> set (fst (scan_lines content))
        \<and> open_port_line (TrimSpace t) ds \<and> dec_val ds = p
       \<longrightarrow> p \<in> fst (parseNmap_content content))"
proof (intro conjI impI ballI)
  fix q assume "q \<in> fst (parseNmap_content content)"
  then show "0 < q" by (auto simp: parseNmap_content_ports)
next
  show "finite (fst (parseNmap_content content))"
    by (simp add: parseNmap_content_def case_prod_unfold Let_def finite_parse_lines)
next
  show "card (fst (parseNmap_content content)) \<le> length (fst (scan_lines content))"
    using card_parse_lines [of "{}" "fst (scan_lines content)"]
    by (simp add: parseNmap_content_def case_prod_unfold Let_def)
next
  show "parse_line t (parse_line t ports) = parse_line t ports"
    by (rule parse_line_idem)
next
  show "FindStringSubmatch (TrimSpace ''0/tcp open'') = Some [''0/tcp open'', ''0'']"
    by code_simp
next
  show "fst (parseNmap_content ''0/tcp open'') = {}"
    by code_simp
next
  assume a: "65535 < p \<and> p \<le> maxInt \<and> t \<in> set (fst (scan_lines content))
        \<and> open_port_line (TrimSpace t) ds \<and> dec_val ds = p"
  then have "p = min (dec_val ds) maxInt" "0 < p" by auto
  with a show "p \<in> fst (parseNmap_content content)"
    unfolding parseNmap_content_ports by blast
qed

theorem parseNmap_ports_positive_once_witness:
  "fst (parseNmap_content (''70000/tcp open'' @ NL @ ''70000/tcp open again'' @ NL)) = {70000}
   \<and> card (fst (parseNmap_content (''70000/tcp open'' @ NL @ ''70000/tcp open again'' @ NL))) = 1"
proof -
  let ?c = "''70000/tcp open'' @ NL @ ''70000/tcp open again'' @ NL"
  note inst = parseNmap_ports_positive_once
    [where content = ?c and p = 70000 and t = "''70000/tcp open''" and ds = "''70000''"]
  have s: "fst (scan_lines ?c) = [''70000/tcp open'', ''70000/tcp open again'']" by code_simp
  have m: "FindStringSubmatch (TrimSpace ''70000/tcp open'') = Some [''70000/tcp open'', ''70000'']"
    by code_simp
  have o: "open_port_line (TrimSpace ''70000/tcp open'') ''70000''"
    using FindStringSubmatch_sound [OF m] by simp
  have d: "dec_val ''70000'' = 70000" by (simp add: dec_val_def digit_val_def)
  from inst o d have i: "70000 \<in> fst (parseNmap_content ?c)"
    unfolding s by (simp add: maxInt_val)
  have e: "fst (parseNmap_content ?c) = {70000}" by code_simp
  from i e show ?thesis by simp
qed

end
